theory Spec2Isabelle
  imports Main
begin

section \<open>JavaScript values and errors\<close>

text \<open>
  The module \<^verbatim>\<open>src/adapter/admin/transaction.mjs\<close> walks arbitrary JavaScript values with
  \<^verbatim>\<open>instanceof\<close>, \<^verbatim>\<open>typeof\<close> and \<^verbatim>\<open>Array.isArray\<close>. A value is a primitive, an array,
  a plain object (its own enumerable entries in \<^verbatim>\<open>Object.entries\<close> order, with pairwise
  different keys) or an instance of one of the classes of the module; the type parameter
  says which class instances can occur. Arrays are dense, so the entries of an array are
  its elements in order. Numbers are never computed with, so they are integers here.
\<close>

datatype 'l val =
    JUndefined
  | JNull
  | JBool bool
  | JNum int
  | JStr string
  | JArray "'l val list"
  | JObject "(string \<times> 'l val) list"
  | JInst 'l

text \<open>A thrown exception is the \<open>Inl\<close> branch of a result.\<close>

datatype error = ReferenceError string | TypeError string | Error string

text \<open>
  \<^verbatim>\<open>forEach\<close> visits the entries in order; the first callback that throws ends the loop
  and the exception leaves the enclosing function.
\<close>

fun collect :: "(error + 'a) list \<Rightarrow> error + 'a list" where
  "collect [] = Inr []"
| "collect (r # rs) =
     (case r of
        Inl e \<Rightarrow> Inl e
      | Inr v \<Rightarrow> (case collect rs of Inl e \<Rightarrow> Inl e | Inr vs \<Rightarrow> Inr (v # vs)))"

fun collect_entries :: "(string \<times> (error + 'a)) list \<Rightarrow> error + (string \<times> 'a) list" where
  "collect_entries [] = Inr []"
| "collect_entries ((k, r) # kvs) =
     (case r of
        Inl e \<Rightarrow> Inl e
      | Inr v \<Rightarrow> (case collect_entries kvs of Inl e \<Rightarrow> Inl e | Inr vs \<Rightarrow> Inr ((k, v) # vs)))"

text \<open>
  The loops build their result in a fresh object by \<^verbatim>\<open>processedData[key] = value\<close>. The
  assignment creates an own entry under the key, except under the key \<^verbatim>\<open>__proto__\<close>: there
  it runs the prototype setter of the fresh object (which replaces the prototype when the
  value is an object and does nothing otherwise) and creates no entry. So the entries of
  the object a loop builds are the ones assigned under the other keys, in order. An object
  has an own key \<^verbatim>\<open>__proto__\<close> only when it was made by \<^verbatim>\<open>JSON.parse\<close>, a computed key or
  \<^verbatim>\<open>Object.defineProperty\<close>.
\<close>

definition assigned :: "(string \<times> 'a) list \<Rightarrow> (string \<times> 'a) list" where
  "assigned kvs = filter (\<lambda>kv. fst kv \<noteq> ''__proto__'') kvs"

section \<open>Collections, references and documents\<close>

text \<open>
  The db object and the Firestore transaction are objects of the caller and of the
  client library; the module only stores and passes them on, so they are references:
  the db object an address of the object heap below, the transaction a handle.
  The fields \<^verbatim>\<open>firestore\<close> (\<^verbatim>\<open>db[firestoreSymbol]\<close>) and \<^verbatim>\<open>type\<close> of a collection are
  determined by \<^verbatim>\<open>db\<close> and by the class, and so are \<^verbatim>\<open>type\<close> and \<^verbatim>\<open>environment\<close> of a
  reference or document.
\<close>

type_synonym db_ref = nat
type_synonym tx_ref = nat

datatype read_collection =
  ReadCollection (rc_db: db_ref) (rc_transaction: tx_ref) (rc_name: string) (rc_path: string)

datatype write_collection =
  WriteCollection (wc_db: db_ref) (wc_transaction: tx_ref) (wc_name: string) (wc_path: string)

datatype read_ref = ReadRef (rr_collection: read_collection) (rr_id: string)

datatype write_ref = WriteRef (wr_collection: write_collection) (wr_id: string)

text \<open>A document payload is a value whose class instances are reference objects.\<close>

datatype ref_object = is_ReadRefObj: ReadRefObj read_ref | is_WriteRefObj: WriteRefObj write_ref

type_synonym payload = "ref_object val"

datatype read_doc = ReadDoc (rd_ref: read_ref) (rd_data: payload)

datatype write_doc = WriteDoc (wd_ref: write_ref) (wd_data: payload)

text \<open>The constructors \<^verbatim>\<open>new ReadDoc(collection, id, data)\<close> and \<^verbatim>\<open>new WriteDoc(...)\<close>.\<close>

definition new_ReadDoc :: "read_collection \<Rightarrow> string \<Rightarrow> payload \<Rightarrow> read_doc" where
  "new_ReadDoc collection ident data = ReadDoc (ReadRef collection ident) data"

definition new_WriteDoc :: "write_collection \<Rightarrow> string \<Rightarrow> payload \<Rightarrow> write_doc" where
  "new_WriteDoc collection ident data = WriteDoc (WriteRef collection ident) data"

text \<open>
  \<^verbatim>\<open>Collection\<close>, \<^verbatim>\<open>Ref\<close> and \<^verbatim>\<open>Doc\<close> are classes of \<^verbatim>\<open>core.mjs\<close>; an instance is the
  constructor with the arguments it was given.
\<close>

datatype collection = Collection (c_db: db_ref) (c_name: string) (c_path: string)

datatype ref = Ref (r_collection: collection) (r_id: string)

datatype doc = Doc (d_collection: collection) (d_id: string) (d_data: payload)

text \<open>The class instances a read result, a write result and a caller-facing result hold.\<close>

datatype read_obj = RDoc read_doc | RRef read_ref

datatype write_obj = WDoc write_doc | WRef write_ref

datatype plain_obj = PDoc doc | PRef ref

section \<open>The static \<^verbatim>\<open>fromRead\<close> methods\<close>

definition WriteCollection_fromRead :: "read_collection \<Rightarrow> write_collection" where
  "WriteCollection_fromRead collection =
     WriteCollection (rc_db collection) (rc_transaction collection)
       (rc_name collection) (rc_path collection)"

definition WriteDoc_fromRead :: "read_doc \<Rightarrow> write_doc" where
  "WriteDoc_fromRead doc =
     new_WriteDoc (WriteCollection_fromRead (rr_collection (rd_ref doc)))
       (rr_id (rd_ref doc)) (rd_data doc)"

text \<open>
  \<^verbatim>\<open>WriteRef.fromRead(doc)\<close> reads \<^verbatim>\<open>doc.ref.collection\<close> and \<^verbatim>\<open>doc.ref.id\<close>. A read
  reference has the fields \<^verbatim>\<open>type\<close>, \<^verbatim>\<open>collection\<close> and \<^verbatim>\<open>id\<close> and no \<^verbatim>\<open>ref\<close>, so
  on a reference \<^verbatim>\<open>doc.ref\<close> is \<^verbatim>\<open>undefined\<close> and the property read throws.
\<close>

fun WriteRef_fromRead :: "read_obj \<Rightarrow> error + write_ref" where
  "WriteRef_fromRead (RDoc doc) =
     Inr (WriteRef (WriteCollection_fromRead (rr_collection (rd_ref doc))) (rr_id (rd_ref doc)))"
| "WriteRef_fromRead (RRef r) =
     Inl (TypeError ''Cannot read properties of undefined (reading 'collection')'')"

section \<open>The read-to-write converter\<close>

text \<open>
  \<^verbatim>\<open>readDocsToWriteDocs(db, transaction, data)\<close>. The second branch calls
  \<^verbatim>\<open>WriteRead.fromRead(data)\<close>; the module declares and imports no \<^verbatim>\<open>WriteRead\<close>, so
  evaluating the identifier throws a ReferenceError. \<^verbatim>\<open>null\<close> is falsy and leaves
  through the last branch with the primitives. The data is a read result: a value whose
  class instances are read documents and read references. The parameters \<^verbatim>\<open>db\<close> and
  \<^verbatim>\<open>transaction\<close> are only passed on to the recursive calls.
\<close>

primrec readDocsToWriteDocs :: "db_ref \<Rightarrow> tx_ref \<Rightarrow> read_obj val \<Rightarrow> error + write_obj val" where
  "readDocsToWriteDocs db transaction JUndefined = Inr JUndefined"
| "readDocsToWriteDocs db transaction JNull = Inr JNull"
| "readDocsToWriteDocs db transaction (JBool b) = Inr (JBool b)"
| "readDocsToWriteDocs db transaction (JNum n) = Inr (JNum n)"
| "readDocsToWriteDocs db transaction (JStr s) = Inr (JStr s)"
| "readDocsToWriteDocs db transaction (JArray xs) =
     map_sum id JArray (collect (map (readDocsToWriteDocs db transaction) xs))"
| "readDocsToWriteDocs db transaction (JObject kvs) =
     map_sum id (\<lambda>processedData. JObject (assigned processedData))
       (collect_entries (map (map_prod id (readDocsToWriteDocs db transaction)) kvs))"
| "readDocsToWriteDocs db transaction (JInst data) =
     (case data of
        RDoc d \<Rightarrow> Inr (JInst (WDoc (WriteDoc_fromRead d)))
      | RRef r \<Rightarrow> Inl (ReferenceError ''WriteRead is not defined''))"

section \<open>The output converter\<close>

text \<open>
  \<^verbatim>\<open>writeDocsToDocs(db, value)\<close>. The branch for a write reference reads
  \<^verbatim>\<open>value.ref.collection.name\<close> first; a \<^verbatim>\<open>WriteRef\<close> has no \<^verbatim>\<open>ref\<close> field, so the read
  throws before \<^verbatim>\<open>Collection\<close> or \<^verbatim>\<open>Ref\<close> is constructed. The value is a write
  result: a value whose class instances are write documents and write references.
\<close>

primrec writeDocsToDocs :: "db_ref \<Rightarrow> write_obj val \<Rightarrow> error + plain_obj val" where
  "writeDocsToDocs db JUndefined = Inr JUndefined"
| "writeDocsToDocs db JNull = Inr JNull"
| "writeDocsToDocs db (JBool b) = Inr (JBool b)"
| "writeDocsToDocs db (JNum n) = Inr (JNum n)"
| "writeDocsToDocs db (JStr s) = Inr (JStr s)"
| "writeDocsToDocs db (JArray xs) = map_sum id JArray (collect (map (writeDocsToDocs db) xs))"
| "writeDocsToDocs db (JObject kvs) =
     map_sum id (\<lambda>processedData. JObject (assigned processedData))
       (collect_entries (map (map_prod id (writeDocsToDocs db)) kvs))"
| "writeDocsToDocs db (JInst v) =
     (case v of
        WDoc d \<Rightarrow>
          Inr (JInst (PDoc (Doc
            (Collection db (wc_name (wr_collection (wd_ref d))) (wc_path (wr_collection (wd_ref d))))
            (wr_id (wd_ref d))
            (wd_data d))))
      | WRef r \<Rightarrow> Inl (TypeError ''Cannot read properties of undefined (reading 'collection')''))"

section \<open>Path resolution\<close>

fun split_slash :: "string \<Rightarrow> string list" where
  "split_slash [] = [[]]"
| "split_slash (c # cs) =
     (if c = CHR ''/'' then [] # split_slash cs
      else (case split_slash cs of [] \<Rightarrow> [[c]] | s # ss \<Rightarrow> (c # s) # ss))"

fun slash_join :: "string list \<Rightarrow> string" where
  "slash_join [] = []"
| "slash_join [s] = s"
| "slash_join (s # t # ss) = s @ ''/'' @ slash_join (t # ss)"

text \<open>
  Modelled from the spec: \<^verbatim>\<open>pathRegExp\<close> is imported from \<^verbatim>\<open>core.mjs\<close>, which is not among
  the sources. The path grammar is \<^verbatim>\<open>(<nestedPrefix>/)?<collectionName>/<documentId>\<close>, where
  the nested prefix may contain further slash-separated segments; a path with fewer than
  two segments or with an empty component does not match.
\<close>

definition parsePath :: "string \<Rightarrow> (string option \<times> string \<times> string) option" where
  "parsePath p =
     (let segs = split_slash p in
      if length segs < 2 \<or> [] \<in> set segs then None
      else Some (if length segs = 2 then None else Some (slash_join (butlast (butlast segs))),
                 last (butlast segs), last segs))"

text \<open>
  Modelled from the spec: the result of \<^verbatim>\<open>path.match(pathRegExp)\<close>, \<open>None\<close> for \<^verbatim>\<open>null\<close>,
  otherwise the three capture groups the caller destructures. The first group is the
  parenthesised optional part of the grammar, \<^verbatim>\<open>(<nestedPrefix>/)\<close>: the nested prefix with
  its closing slash, or \<^verbatim>\<open>undefined\<close> (\<open>None\<close>) when the path has two segments.
\<close>

definition pathRegExp_match :: "string \<Rightarrow> (string option \<times> string \<times> string) option" where
  "pathRegExp_match p =
     map_option (\<lambda>(nested, name, ident). (map_option (\<lambda>n. n @ ''/'') nested, name, ident))
       (parsePath p)"

text \<open>\<^verbatim>\<open>nestedPath || ""\<close>: \<^verbatim>\<open>undefined\<close> and the empty string are falsy.\<close>

definition or_empty :: "string option \<Rightarrow> string" where
  "or_empty s = (case s of None \<Rightarrow> [] | Some t \<Rightarrow> (if t = [] then [] else t))"

definition pathToWriteRef :: "db_ref \<Rightarrow> tx_ref \<Rightarrow> string \<Rightarrow> error + write_ref" where
  "pathToWriteRef db transaction path =
     (case pathRegExp_match path of
        None \<Rightarrow> Inl (Error (''Can't parse path '' @ path))
      | Some (nestedPath, name, ident) \<Rightarrow>
          Inr (WriteRef (WriteCollection db transaction name (or_empty nestedPath @ name)) ident))"

section \<open>Reading a document\<close>

text \<open>
  Modelled from the spec: \<^verbatim>\<open>wrapData(db, nativeData, refResolver)\<close> is imported from
  \<^verbatim>\<open>core.mjs\<close>, which is not among the sources. It walks the client's native data and
  replaces every embedded reference marker by what the resolver returns for the marker's
  path, keeping arrays, keyed mappings and primitives. Native data is a value whose
  instances are markers, each the path of the document it points to.
\<close>

primrec wrapData :: "db_ref \<Rightarrow> string val \<Rightarrow> (db_ref \<Rightarrow> string \<Rightarrow> error + 'r) \<Rightarrow> error + 'r val" where
  "wrapData db JUndefined = (\<lambda>resolver. Inr JUndefined)"
| "wrapData db JNull = (\<lambda>resolver. Inr JNull)"
| "wrapData db (JBool b) = (\<lambda>resolver. Inr (JBool b))"
| "wrapData db (JNum n) = (\<lambda>resolver. Inr (JNum n))"
| "wrapData db (JStr s) = (\<lambda>resolver. Inr (JStr s))"
| "wrapData db (JArray xs) =
     (\<lambda>resolver. map_sum id JArray (collect (map (\<lambda>x. wrapData db x resolver) xs)))"
| "wrapData db (JObject kvs) =
     (\<lambda>resolver. map_sum id JObject
        (collect_entries (map (\<lambda>kv. (fst kv, snd kv resolver)) (map (map_prod id (wrapData db)) kvs))))"
| "wrapData db (JInst path) = (\<lambda>resolver. map_sum id JInst (resolver db path))"

text \<open>
  The snapshot the client returns for a point read: \<^verbatim>\<open>snapshot.exists\<close> and
  \<^verbatim>\<open>snapshot.data()\<close>. The client's \<^verbatim>\<open>transaction.get\<close> is a parameter: it maps the
  transaction and the document path to the snapshot.
\<close>

datatype snapshot = Snapshot (snap_exists: bool) (snap_data: "string val")

definition ReadCollection_get ::
  "(tx_ref \<Rightarrow> string \<Rightarrow> snapshot) \<Rightarrow> read_collection \<Rightarrow> string \<Rightarrow> error + read_doc option" where
  "ReadCollection_get tx_get this ident =
     (let doc = rc_path this @ ''/'' @ ident;
          snapshot = tx_get (rc_transaction this) doc
      in if \<not> snap_exists snapshot then Inr None
         else (case wrapData (rc_db this) (snap_data snapshot)
                      (\<lambda>db path. map_sum id WriteRefObj (pathToWriteRef db (rc_transaction this) path)) of
                 Inl e \<Rightarrow> Inl e
               | Inr data \<Rightarrow> Inr (Some (new_ReadDoc this ident data))))"

section \<open>Staging writes\<close>

text \<open>
  The write methods call \<^verbatim>\<open>set\<close>, \<^verbatim>\<open>update\<close> and \<^verbatim>\<open>delete\<close> of the client's transaction,
  which stage a write. The staged-write state of the transaction is the sequence of these
  calls, each with the document (collection path and id) and the unwrapped payload
  (\<open>TxSetMerge\<close> is \<^verbatim>\<open>set\<close> with \<^verbatim>\<open>{ merge: true }\<close>). \<^verbatim>\<open>unwrapData\<close> is imported from
  \<^verbatim>\<open>core.mjs\<close>, which is not among the sources, and is a parameter.
\<close>

datatype 'n tx_call =
    TxSet string string 'n
  | TxSetMerge string string 'n
  | TxUpdate string string 'n
  | TxDelete string string

text \<open>
  An argument is a value or a function of the helpers; \<^verbatim>\<open>writeHelpers()\<close> and
  \<^verbatim>\<open>updateHelpers()\<close> are imported from \<^verbatim>\<open>core.mjs\<close> and only passed to that function.
\<close>

datatype write_helpers = WriteHelpers

datatype update_helpers = UpdateHelpers

datatype ('h, 'a) js_arg = Plain 'a | Fn "'h \<Rightarrow> 'a"

definition resolve_arg :: "'h \<Rightarrow> ('h, 'a) js_arg \<Rightarrow> 'a" where
  "resolve_arg helpers data = (case data of Fn f \<Rightarrow> f helpers | Plain d \<Rightarrow> d)"

text \<open>
  An update field is an instance of \<^verbatim>\<open>UpdateField\<close> (of \<^verbatim>\<open>core.mjs\<close>): a field path and a
  value. The data of an update is \<^verbatim>\<open>undefined\<close>, \<^verbatim>\<open>null\<close>, a plain partial structure, an
  array of update fields or a single update field.
\<close>

datatype update_field = UpdateField (uf_key: string) (uf_value: payload)

datatype update_data =
    UUndefined
  | UNull
  | UObject "(string \<times> payload) list"
  | UArray "update_field list"
  | UField update_field

fun truthy :: "update_data \<Rightarrow> bool" where
  "truthy UUndefined = False"
| "truthy UNull = False"
| "truthy (UObject obj) = True"
| "truthy (UArray fs) = True"
| "truthy (UField f) = True"

text \<open>\<^verbatim>\<open>obj[key] = value\<close> on a plain object.\<close>

fun assign :: "(string \<times> 'a) list \<Rightarrow> string \<Rightarrow> 'a \<Rightarrow> (string \<times> 'a) list" where
  "assign [] k v = [(k, v)]"
| "assign ((k', v') # kvs) k v =
     (if k' = k then (k, v) # kvs else (k', v') # assign kvs k v)"

text \<open>
  Modelled from the spec: \<^verbatim>\<open>updateFields\<close> is imported from \<^verbatim>\<open>core.mjs\<close>, which is not
  among the sources. It flattens an ordered sequence of update fields into a mapping from
  field path to value.
\<close>

definition updateFields :: "update_field list \<Rightarrow> (string \<times> payload) list" where
  "updateFields fields = fold (\<lambda>field acc. assign acc (uf_key field) (uf_value field)) fields []"

definition Object_keys :: "(string \<times> 'a) list \<Rightarrow> string list" where
  "Object_keys obj = map fst obj"

definition WriteCollection_set ::
  "(payload \<Rightarrow> 'n) \<Rightarrow> write_collection \<Rightarrow> string \<Rightarrow> (write_helpers, payload) js_arg \<Rightarrow>
   'n tx_call list \<Rightarrow> 'n tx_call list" where
  "WriteCollection_set unwrapData this ident data staged =
     (let dataToSet = resolve_arg WriteHelpers data
      in staged @ [TxSet (wc_path this) ident (unwrapData dataToSet)])"

definition WriteCollection_upset ::
  "(payload \<Rightarrow> 'n) \<Rightarrow> write_collection \<Rightarrow> string \<Rightarrow> (write_helpers, payload) js_arg \<Rightarrow>
   'n tx_call list \<Rightarrow> 'n tx_call list" where
  "WriteCollection_upset unwrapData this ident data staged =
     (let dataToUpset = resolve_arg WriteHelpers data
      in staged @ [TxSetMerge (wc_path this) ident (unwrapData dataToUpset)])"

definition WriteCollection_update ::
  "(payload \<Rightarrow> 'n) \<Rightarrow> write_collection \<Rightarrow> string \<Rightarrow> (update_helpers, update_data) js_arg \<Rightarrow>
   'n tx_call list \<Rightarrow> 'n tx_call list" where
  "WriteCollection_update unwrapData this ident data staged =
     (let updateData = resolve_arg UpdateHelpers data in
      if \<not> truthy updateData then staged
      else
        (let update =
               (case updateData of
                  UArray fs \<Rightarrow> updateFields fs
                | UField f \<Rightarrow> updateFields [f]
                | UObject obj \<Rightarrow> obj
                | UUndefined \<Rightarrow> []
                | UNull \<Rightarrow> [])
         in if length (Object_keys update) = 0 then staged
            else staged @ [TxUpdate (wc_path this) ident (unwrapData (JObject update))]))"

definition WriteCollection_remove ::
  "write_collection \<Rightarrow> string \<Rightarrow> 'n tx_call list \<Rightarrow> 'n tx_call list" where
  "WriteCollection_remove this ident staged = staged @ [TxDelete (wc_path this) ident]"

text \<open>The methods of a write reference and of a write document delegate to the collection.\<close>

definition WriteRef_update ::
  "(payload \<Rightarrow> 'n) \<Rightarrow> write_ref \<Rightarrow> (update_helpers, update_data) js_arg \<Rightarrow>
   'n tx_call list \<Rightarrow> 'n tx_call list" where
  "WriteRef_update unwrapData this data staged =
     WriteCollection_update unwrapData (wr_collection this) (wr_id this) data staged"

definition WriteDoc_update ::
  "(payload \<Rightarrow> 'n) \<Rightarrow> write_doc \<Rightarrow> (update_helpers, update_data) js_arg \<Rightarrow>
   'n tx_call list \<Rightarrow> 'n tx_call list" where
  "WriteDoc_update unwrapData this data staged = WriteRef_update unwrapData (wd_ref this) data staged"

section \<open>Schema descriptors and the object heap\<close>

text \<open>
  An entry of a schema descriptor is a function (\<^verbatim>\<open>typeof collection === "function"\<close>)
  with its \<^verbatim>\<open>path\<close> attribute, which returns the nested descriptor for an id, or any other
  value. A descriptor is a plain object: its entries in order.
\<close>

datatype entry =
    Descriptor
  | Callable (path_attr: "string option") (call: "string \<Rightarrow> (string \<times> entry) list")

type_synonym schema = "(string \<times> entry) list"

text \<open>A template literal renders a missing attribute as \<^verbatim>\<open>undefined\<close>.\<close>

definition template :: "string option \<Rightarrow> string" where
  "template s = (case s of None \<Rightarrow> ''undefined'' | Some t \<Rightarrow> t)"

text \<open>
  The db object is mutable and shared with the caller, so it lives in a heap of objects,
  addressed by position: a reference to an object is a position below the length of the
  heap. \<^verbatim>\<open>{ ...obj }\<close> allocates a new object with the entries of \<open>obj\<close>;
  \<^verbatim>\<open>delete obj.key\<close> removes the entry from the object at that address.
\<close>

type_synonym heap = "schema list"

definition spread_copy :: "heap \<Rightarrow> nat \<Rightarrow> heap \<times> nat" where
  "spread_copy h a = (h @ [h ! a], length h)"

definition delete_prop :: "heap \<Rightarrow> nat \<Rightarrow> string \<Rightarrow> heap" where
  "delete_prop h a key = h[a := filter (\<lambda>kv. fst kv \<noteq> key) (h ! a)]"

section \<open>The proxy trees\<close>

text \<open>
  A built tree is the object \<^verbatim>\<open>processedDB\<close>: its own entries in order. An entry of a
  built tree is a collection handle, or a proxy: its \<^verbatim>\<open>get\<close> trap exposes the properties
  of the handle, its \<^verbatim>\<open>apply\<close> trap builds the nested tree for an id.
\<close>

datatype 'c node =
    Handle 'c
  | Proxy 'c "string \<Rightarrow> (string \<times> 'c node) list"

text \<open>\<^verbatim>\<open>nestedPath ? `${nestedPath}/${name}` : name\<close>: \<^verbatim>\<open>undefined\<close> and \<^verbatim>\<open>""\<close> are falsy.\<close>

definition handle_path :: "string option \<Rightarrow> string \<Rightarrow> string" where
  "handle_path nestedPath name =
     (case nestedPath of
        None \<Rightarrow> name
      | Some p \<Rightarrow> (if p = [] then name else p @ ''/'' @ name))"

text \<open>
  The body of the \<^verbatim>\<open>forEach\<close> of the \<^verbatim>\<open>convertDB\<close> inside \<^verbatim>\<open>readDB\<close>, for one entry; the
  nested path and the name follow the entry, which the recursion is on.
\<close>

primrec readDB_entry ::
  "db_ref \<Rightarrow> tx_ref \<Rightarrow> entry \<Rightarrow> string option \<Rightarrow> string \<Rightarrow> read_collection node" where
  "readDB_entry rootDB transaction Descriptor =
     (\<lambda>nestedPath name.
        Handle (ReadCollection rootDB transaction name (handle_path nestedPath name)))"
| "readDB_entry rootDB transaction (Callable cpath collection) =
     (\<lambda>nestedPath name.
        Proxy (ReadCollection rootDB transaction name (handle_path nestedPath name))
          (\<lambda>ident. assigned
             (map (\<lambda>kv. (fst kv, snd kv (Some (template cpath @ ''/'' @ ident)) (fst kv)))
                (map (map_prod id (readDB_entry rootDB transaction)) (collection ident)))))"

definition readDB_convertDB ::
  "db_ref \<Rightarrow> tx_ref \<Rightarrow> schema \<Rightarrow> string option \<Rightarrow> (string \<times> read_collection node) list" where
  "readDB_convertDB rootDB transaction db nestedPath =
     assigned
       (map (\<lambda>(name, collection). (name, readDB_entry rootDB transaction collection nestedPath name))
          db)"

definition readDB :: "heap \<Rightarrow> db_ref \<Rightarrow> tx_ref \<Rightarrow> heap \<times> (string \<times> read_collection node) list" where
  "readDB h rootDB transaction =
     (let (h1, filteredDB) = spread_copy h rootDB;
          h2 = delete_prop h1 filteredDB ''id'';
          h3 = delete_prop h2 filteredDB ''groups''
      in (h3, readDB_convertDB rootDB transaction (h3 ! filteredDB) None))"

primrec writeDB_entry ::
  "db_ref \<Rightarrow> tx_ref \<Rightarrow> entry \<Rightarrow> string option \<Rightarrow> string \<Rightarrow> write_collection node" where
  "writeDB_entry rootDB transaction Descriptor =
     (\<lambda>nestedPath name.
        Handle (WriteCollection rootDB transaction name (handle_path nestedPath name)))"
| "writeDB_entry rootDB transaction (Callable cpath collection) =
     (\<lambda>nestedPath name.
        Proxy (WriteCollection rootDB transaction name (handle_path nestedPath name))
          (\<lambda>ident. assigned
             (map (\<lambda>kv. (fst kv, snd kv (Some (template cpath @ ''/'' @ ident)) (fst kv)))
                (map (map_prod id (writeDB_entry rootDB transaction)) (collection ident)))))"

definition writeDB_convertDB ::
  "db_ref \<Rightarrow> tx_ref \<Rightarrow> schema \<Rightarrow> string option \<Rightarrow> (string \<times> write_collection node) list" where
  "writeDB_convertDB rootDB transaction db nestedPath =
     assigned
       (map (\<lambda>(name, collection). (name, writeDB_entry rootDB transaction collection nestedPath name))
          db)"

definition writeDB :: "heap \<Rightarrow> db_ref \<Rightarrow> tx_ref \<Rightarrow> heap \<times> (string \<times> write_collection node) list" where
  "writeDB h rootDB transaction =
     (let (h1, filteredDB) = spread_copy h rootDB;
          h2 = delete_prop h1 filteredDB ''id'';
          h3 = delete_prop h2 filteredDB ''groups''
      in (h3, writeDB_convertDB rootDB transaction (h3 ! filteredDB) None))"






section \<open>The transaction body\<close>

text \<open>
  The function \<^verbatim>\<open>transaction(db, options).read(readCallback).write(writeCallback)\<close> passes to
  the client's \<^verbatim>\<open>runTransaction\<close>. The callbacks are functions of the caller: the read
  callback returns a read result or throws, the write callback stages writes and returns a
  write result or throws. An exception leaves the body and the client discards the staged
  writes. The object literal of \<^verbatim>\<open>transactionWriteHelpers\<close> evaluates \<^verbatim>\<open>writeDB\<close> before
  \<^verbatim>\<open>readDocsToWriteDocs\<close>. \<^verbatim>\<open>assertEnvironment\<close> of \<^verbatim>\<open>core.mjs\<close> runs before the body
  and is not part of it.
\<close>

definition transactionReadHelpers ::
  "heap \<Rightarrow> db_ref \<Rightarrow> tx_ref \<Rightarrow> heap \<times> (string \<times> read_collection node) list" where
  "transactionReadHelpers h db transaction = readDB h db transaction"

definition transactionWriteHelpers ::
  "heap \<Rightarrow> db_ref \<Rightarrow> tx_ref \<Rightarrow> read_obj val \<Rightarrow>
   error + (heap \<times> (string \<times> write_collection node) list \<times> write_obj val)" where
  "transactionWriteHelpers h db transaction result =
     (let (h1, wdb) = writeDB h db transaction
      in case readDocsToWriteDocs db transaction result of
           Inl e \<Rightarrow> Inl e
         | Inr r \<Rightarrow> Inr (h1, wdb, r))"

definition transaction_body ::
  "heap \<Rightarrow> db_ref \<Rightarrow> tx_ref \<Rightarrow>
   ((string \<times> read_collection node) list \<Rightarrow> error + read_obj val) \<Rightarrow>
   ((string \<times> write_collection node) list \<Rightarrow> write_obj val \<Rightarrow> 'n tx_call list \<Rightarrow>
      error + (write_obj val \<times> 'n tx_call list)) \<Rightarrow>
   'n tx_call list \<Rightarrow> error + (plain_obj val \<times> 'n tx_call list \<times> heap)" where
  "transaction_body h db firebaseTransaction readCallback writeCallback staged =
     (let (h1, rdb) = transactionReadHelpers h db firebaseTransaction
      in case readCallback rdb of
           Inl e \<Rightarrow> Inl e
         | Inr readResult \<Rightarrow>
             (case transactionWriteHelpers h1 db firebaseTransaction readResult of
                Inl e \<Rightarrow> Inl e
              | Inr (h2, wdb, result) \<Rightarrow>
                  (case writeCallback wdb result staged of
                     Inl e \<Rightarrow> Inl e
                   | Inr (writeResult, staged') \<Rightarrow>
                       (case writeDocsToDocs db writeResult of
                          Inl e \<Rightarrow> Inl e
                        | Inr v \<Rightarrow> Inr (v, staged', h2)))))"

section \<open>Walking a value\<close>

text \<open>
  The three converters share one traversal: arrays and keyed mappings are rebuilt entry by
  entry, primitives are returned, and a class instance is given to a function of the
  converter; \<open>post\<close> says which of the converted entries of a keyed mapping the result
  has. The lemmas below are proved once for this traversal.
\<close>

primrec traverse ::
  "((string \<times> 'b val) list \<Rightarrow> (string \<times> 'b val) list) \<Rightarrow> ('a \<Rightarrow> error + 'b) \<Rightarrow> 'a val \<Rightarrow>
   error + 'b val" where
  "traverse post f JUndefined = Inr JUndefined"
| "traverse post f JNull = Inr JNull"
| "traverse post f (JBool b) = Inr (JBool b)"
| "traverse post f (JNum n) = Inr (JNum n)"
| "traverse post f (JStr s) = Inr (JStr s)"
| "traverse post f (JArray xs) = map_sum id JArray (collect (map (traverse post f) xs))"
| "traverse post f (JObject kvs) =
     map_sum id (\<lambda>es. JObject (post es))
       (collect_entries (map (map_prod id (traverse post f)) kvs))"
| "traverse post f (JInst l) = map_sum id JInst (f l)"

definition read_leaf :: "read_obj \<Rightarrow> error + write_obj" where
  "read_leaf data =
     (case data of
        RDoc d \<Rightarrow> Inr (WDoc (WriteDoc_fromRead d))
      | RRef r \<Rightarrow> Inl (ReferenceError ''WriteRead is not defined''))"

definition write_leaf :: "db_ref \<Rightarrow> write_obj \<Rightarrow> error + plain_obj" where
  "write_leaf db v =
     (case v of
        WDoc d \<Rightarrow>
          Inr (PDoc (Doc
            (Collection db (wc_name (wr_collection (wd_ref d))) (wc_path (wr_collection (wd_ref d))))
            (wr_id (wd_ref d))
            (wd_data d)))
      | WRef r \<Rightarrow> Inl (TypeError ''Cannot read properties of undefined (reading 'collection')''))"

section \<open>Properties of the traversal\<close>

lemma collect_Inr_iff: "collect rs = Inr vs \<longleftrightarrow> list_all2 (\<lambda>r v. r = Inr v) rs vs"
proof (induction rs arbitrary: vs)
  case Nil
  show ?case by auto
next
  case (Cons r rs)
  show ?case
  proof (cases r)
    case (Inl e)
    then show ?thesis by (simp add: list_all2_Cons1)
  next
    case (Inr v)
    show ?thesis
    proof (cases vs)
      case Nil
      with Inr show ?thesis by (simp split: sum.splits)
    next
      case (Cons u us)
      with Inr Cons.IH [of us] show ?thesis by (auto split: sum.splits)
    qed
  qed
qed

lemma collect_Inl: "collect rs = Inl e \<Longrightarrow> Inl e \<in> set rs"
  by (induction rs) (auto split: sum.splits)

lemma collect_entries_Inr_iff:
  "collect_entries kvs = Inr vs \<longleftrightarrow>
   list_all2 (\<lambda>kr kv. fst kr = fst kv \<and> snd kr = Inr (snd kv)) kvs vs"
proof (induction kvs arbitrary: vs)
  case Nil
  show ?case by auto
next
  case (Cons kr kvs)
  obtain k r where kr: "kr = (k, r)" by (cases kr)
  show ?case
  proof (cases r)
    case (Inl e)
    with kr show ?thesis by (simp add: list_all2_Cons1)
  next
    case (Inr v)
    show ?thesis
    proof (cases vs)
      case Nil
      with Inr kr show ?thesis by (simp split: sum.splits)
    next
      case (Cons u us)
      with Inr kr Cons.IH [of us] show ?thesis by (cases u) (auto split: sum.splits)
    qed
  qed
qed

lemma collect_entries_Inl: "collect_entries kvs = Inl e \<Longrightarrow> Inl e \<in> snd ` set kvs"
  by (induction kvs rule: collect_entries.induct) (auto split: sum.splits)

lemma map_sum_Inr_iff: "map_sum id g r = Inr w \<longleftrightarrow> (\<exists>v. r = Inr v \<and> w = g v)"
  by (cases r) auto

lemma map_sum_Inl_iff: "map_sum id g r = Inl e \<longleftrightarrow> r = Inl e"
  by (cases r) auto

lemma traverse_Inr_iff: "traverse (\<lambda>es. es) f v = Inr w \<longleftrightarrow> rel_val (\<lambda>a b. f a = Inr b) v w"
proof (induction v arbitrary: w)
  case (JArray xs)
  have "list_all2 (\<lambda>x y. traverse (\<lambda>es. es) f x = Inr y) xs ys \<longleftrightarrow> list_all2 (rel_val (\<lambda>a b. f a = Inr b)) xs ys" for ys
    using JArray by (auto elim!: list.rel_mono_strong)
  then have "(\<exists>ys. list_all2 (\<lambda>r v. r = Inr v) (map (traverse (\<lambda>es. es) f) xs) ys \<and> w = JArray ys) \<longleftrightarrow>
             (\<exists>ys. list_all2 (rel_val (\<lambda>a b. f a = Inr b)) xs ys \<and> w = JArray ys)"
    by (simp add: list_all2_map1)
  moreover have "rel_val (\<lambda>a b. f a = Inr b) (JArray xs) w \<longleftrightarrow>
     (\<exists>ys. list_all2 (rel_val (\<lambda>a b. f a = Inr b)) xs ys \<and> w = JArray ys)"
    by (cases w) auto
  ultimately show ?case
    by (simp add: map_sum_Inr_iff collect_Inr_iff)
next
  case (JObject kvs)
  have *: "(fst x = fst y \<and> traverse (\<lambda>es. es) f (snd x) = Inr (snd y)) \<longleftrightarrow>
          rel_prod (=) (rel_val (\<lambda>a b. f a = Inr b)) x y" if "x \<in> set kvs" for x y
      using JObject [of x "snd x" "snd y"] that by (cases x; cases y) auto
  have "list_all2 (\<lambda>x y. fst x = fst y \<and> traverse (\<lambda>es. es) f (snd x) = Inr (snd y)) kvs ys \<longleftrightarrow>
        list_all2 (rel_prod (=) (rel_val (\<lambda>a b. f a = Inr b))) kvs ys" for ys
    using * by (auto elim!: list.rel_mono_strong)
  then have "(\<exists>ys. list_all2 (\<lambda>kr kv. fst kr = fst kv \<and> snd kr = Inr (snd kv))
                 (map (map_prod id (traverse (\<lambda>es. es) f)) kvs) ys \<and> w = JObject ys) \<longleftrightarrow>
             (\<exists>ys. list_all2 (rel_prod (=) (rel_val (\<lambda>a b. f a = Inr b))) kvs ys \<and> w = JObject ys)"
    by (simp add: list_all2_map1)
  moreover have "rel_val (\<lambda>a b. f a = Inr b) (JObject kvs) w \<longleftrightarrow>
     (\<exists>ys. list_all2 (rel_prod (=) (rel_val (\<lambda>a b. f a = Inr b))) kvs ys \<and> w = JObject ys)"
    by (cases w) auto
  ultimately show ?case
    by (simp add: map_sum_Inr_iff collect_entries_Inr_iff)
next
  case JUndefined show ?case by (cases w) auto
next
  case JNull show ?case by (cases w) auto
next
  case (JBool b) show ?case by (cases w) auto
next
  case (JNum n) show ?case by (cases w) auto
next
  case (JStr s) show ?case by (cases w) auto
next
  case (JInst l) show ?case by (cases w) (auto simp: map_sum_Inr_iff)
qed

lemma traverse_Inl: "traverse post f v = Inl e \<Longrightarrow> \<exists>l\<in>set_val v. f l = Inl e"
proof (induction v)
  case (JArray xs)
  from JArray.prems have "collect (map (traverse post f) xs) = Inl e"
    by (auto simp: map_sum_def split: sum.splits)
  then obtain x where x: "x \<in> set xs" "traverse post f x = Inl e"
    by (auto dest!: collect_Inl)
  from JArray.IH [OF x] obtain l where "l \<in> set_val x" "f l = Inl e"
    by auto
  with x show ?case by auto
next
  case (JObject kvs)
  from JObject.prems have "collect_entries (map (map_prod id (traverse post f)) kvs) = Inl e"
    by (auto simp: map_sum_def split: sum.splits)
  then obtain k x where x: "(k, x) \<in> set kvs" "traverse post f x = Inl e"
    by (auto dest!: collect_entries_Inl)
  from JObject.IH [of "(k, x)" x] x obtain l where "l \<in> set_val x" "f l = Inl e"
    by auto
  with x show ?case by force
qed (auto simp: map_sum_def split: sum.splits)

lemma readDocsToWriteDocs_traverse: "readDocsToWriteDocs db t v = traverse assigned read_leaf v"
proof (induction v)
  case (JArray xs)
  have "map (readDocsToWriteDocs db t) xs = map (traverse assigned read_leaf) xs"
    by (rule map_cong) (use JArray in auto)
  then show ?case by (simp only: readDocsToWriteDocs.simps traverse.simps)
next
  case (JObject kvs)
  have "map (map_prod id (readDocsToWriteDocs db t)) kvs = map (map_prod id (traverse assigned read_leaf)) kvs"
    by (rule map_cong) (use JObject in auto)
  then show ?case by (simp only: readDocsToWriteDocs.simps traverse.simps)
qed (auto simp: read_leaf_def split: read_obj.splits)

lemma writeDocsToDocs_traverse: "writeDocsToDocs db v = traverse assigned (write_leaf db) v"
proof (induction v)
  case (JArray xs)
  have "map (writeDocsToDocs db) xs = map (traverse assigned (write_leaf db)) xs"
    by (rule map_cong) (use JArray in auto)
  then show ?case by (simp only: writeDocsToDocs.simps traverse.simps)
next
  case (JObject kvs)
  have "map (map_prod id (writeDocsToDocs db)) kvs = map (map_prod id (traverse assigned (write_leaf db))) kvs"
    by (rule map_cong) (use JObject in auto)
  then show ?case by (simp only: writeDocsToDocs.simps traverse.simps)
qed (auto simp: write_leaf_def split: write_obj.splits)

lemma wrapData_traverse: "wrapData db v resolver = traverse (\<lambda>es. es) (resolver db) v"
proof (induction v)
  case (JArray xs)
  have "map (\<lambda>x. wrapData db x resolver) xs = map (traverse (\<lambda>es. es) (resolver db)) xs"
    by (rule map_cong) (use JArray in auto)
  then show ?case by (simp only: wrapData.simps traverse.simps)
next
  case (JObject kvs)
  have "map (\<lambda>kv. (fst kv, snd kv resolver)) (map (map_prod id (wrapData db)) kvs) =
        map (map_prod id (traverse (\<lambda>es. es) (resolver db))) kvs"
    unfolding map_map by (rule map_cong) (use JObject in auto)
  then show ?case by (simp only: wrapData.simps traverse.simps)
qed simp_all


lemma collect_has_Inl: "Inl e \<in> set rs \<Longrightarrow> \<exists>e'. collect rs = Inl e'"
  by (induction rs) (auto split: sum.splits)

lemma collect_entries_has_Inl: "(k, Inl e) \<in> set kvs \<Longrightarrow> \<exists>e'. collect_entries kvs = Inl e'"
  by (induction kvs rule: collect_entries.induct) (auto split: sum.splits)

lemma traverse_leaf_Inl: "l \<in> set_val v \<Longrightarrow> f l = Inl e \<Longrightarrow> \<exists>e'. traverse post f v = Inl e'"
proof (induction v)
  case (JArray xs)
  from JArray.prems(1) obtain x where x: "x \<in> set xs" "l \<in> set_val x"
    by auto
  from JArray.IH [OF x JArray.prems(2)] obtain e' where "traverse post f x = Inl e'" ..
  with x(1) have "Inl e' \<in> set (map (traverse post f) xs)"
    by (simp add: image_iff) (rule bexI [of _ x], simp_all)
  then obtain e'' where "collect (map (traverse post f) xs) = Inl e''"
    using collect_has_Inl by blast
  then show ?case by simp
next
  case (JObject kvs)
  from JObject.prems(1) obtain k x where x: "(k, x) \<in> set kvs" "l \<in> set_val x"
    by auto
  have "x \<in> Basic_BNFs.snds (k, x)" by simp
  from JObject.IH [OF x(1) this x(2) JObject.prems(2)] obtain e' where "traverse post f x = Inl e'" ..
  with x(1) have "(k, Inl e') \<in> set (map (map_prod id (traverse post f)) kvs)"
    by (simp add: image_iff) (rule bexI [of _ "(k, x)"], simp_all)
  then obtain e'' where "collect_entries (map (map_prod id (traverse post f)) kvs) = Inl e''"
    using collect_entries_has_Inl by blast
  then show ?case by simp
qed (auto simp: map_sum_Inl_iff)

lemma traverse_Inl_iff: "(\<exists>e. traverse post f v = Inl e) \<longleftrightarrow> (\<exists>l\<in>set_val v. \<exists>e. f l = Inl e)"
proof
  assume "\<exists>e. traverse post f v = Inl e"
  then obtain e where e: "traverse post f v = Inl e" ..
  from traverse_Inl [OF e] obtain l where "l \<in> set_val v" "f l = Inl e" ..
  then show "\<exists>l\<in>set_val v. \<exists>e. f l = Inl e"
    by (intro bexI exI)
next
  assume "\<exists>l\<in>set_val v. \<exists>e. f l = Inl e"
  then obtain l e where "l \<in> set_val v" "f l = Inl e"
    by (elim bexE exE)
  then show "\<exists>e. traverse post f v = Inl e"
    by (rule traverse_leaf_Inl)
qed

lemma bex_eq_leaf: "(\<exists>l\<in>S. \<exists>r. l = c r) \<longleftrightarrow> (\<exists>r. c r \<in> S)"
proof
  assume "\<exists>l\<in>S. \<exists>r. l = c r"
  then obtain l r where "l \<in> S" "l = c r"
    by (elim bexE exE)
  then have "c r \<in> S" by simp
  then show "\<exists>r. c r \<in> S" ..
next
  assume "\<exists>r. c r \<in> S"
  then obtain r where "c r \<in> S" ..
  then show "\<exists>l\<in>S. \<exists>r. l = c r"
    by (intro bexI exI) (rule refl)
qed

lemma readDocsToWriteDocs_Inl_iff:
  "(\<exists>e. readDocsToWriteDocs db t v = Inl e) \<longleftrightarrow> (\<exists>r. RRef r \<in> set_val v)"
proof -
  have leaf: "(\<exists>e. read_leaf l = Inl e) \<longleftrightarrow> (\<exists>r. l = RRef r)" for l
    by (cases l) (simp_all add: read_leaf_def)
  have "(\<exists>e. readDocsToWriteDocs db t v = Inl e) \<longleftrightarrow> (\<exists>l\<in>set_val v. \<exists>e. read_leaf l = Inl e)"
    by (simp only: readDocsToWriteDocs_traverse traverse_Inl_iff)
  also have "\<dots> \<longleftrightarrow> (\<exists>l\<in>set_val v. \<exists>r. l = RRef r)"
    by (simp only: leaf)
  also have "\<dots> \<longleftrightarrow> (\<exists>r. RRef r \<in> set_val v)"
    by (rule bex_eq_leaf)
  finally show ?thesis .
qed

section \<open>Claims about the read-to-write converter\<close>

lemma readDocsToWriteDocs_total:
  assumes "\<not> (\<exists>r. RRef r \<in> set_val v)"
  shows "\<exists>w. readDocsToWriteDocs db t v = Inr w"
proof (cases "readDocsToWriteDocs db t v")
  case (Inl e)
  then have "\<exists>e. readDocsToWriteDocs db t v = Inl e" ..
  with assms show ?thesis
    by (simp only: readDocsToWriteDocs_Inl_iff)
next
  case (Inr w)
  then show ?thesis ..
qed

lemma readDocsToWriteDocs_JArray_shape:
  "readDocsToWriteDocs db t (JArray xs) = Inr w \<longleftrightarrow>
   (\<exists>ys. w = JArray ys \<and> list_all2 (\<lambda>x y. readDocsToWriteDocs db t x = Inr y) xs ys)"
  by (auto simp: map_sum_Inr_iff collect_Inr_iff list_all2_map1)

lemma readDocsToWriteDocs_JObject_shape:
  "readDocsToWriteDocs db t (JObject kvs) = Inr w \<longleftrightarrow>
   (\<exists>es. w = JObject (assigned es) \<and>
      list_all2 (\<lambda>kv e. fst kv = fst e \<and> readDocsToWriteDocs db t (snd kv) = Inr (snd e)) kvs es)"
  by (auto simp: map_sum_Inr_iff collect_entries_Inr_iff list_all2_map1)

text \<open>
  C1. For every read document \<open>D\<close>, and so for every one \<^verbatim>\<open>get\<close> returns, the converter
  returns a write document. Its collection has the db, the transaction, the name and the
  path of the collection of \<open>D\<close>, and its id and data payload are those of \<open>D\<close>.
\<close>

theorem readDocsToWriteDocs_ReadDoc:
  "readDocsToWriteDocs db transaction (JInst (RDoc D)) = Inr (JInst (WDoc (WriteDoc_fromRead D)))
   \<and> wr_id (wd_ref (WriteDoc_fromRead D)) = rr_id (rd_ref D)
   \<and> wd_data (WriteDoc_fromRead D) = rd_data D
   \<and> wc_path (wr_collection (wd_ref (WriteDoc_fromRead D))) = rc_path (rr_collection (rd_ref D))
   \<and> wc_name (wr_collection (wd_ref (WriteDoc_fromRead D))) = rc_name (rr_collection (rd_ref D))
   \<and> wc_transaction (wr_collection (wd_ref (WriteDoc_fromRead D))) =
       rc_transaction (rr_collection (rd_ref D))
   \<and> wc_db (wr_collection (wd_ref (WriteDoc_fromRead D))) = rc_db (rr_collection (rd_ref D))"
  by (simp add: WriteDoc_fromRead_def new_WriteDoc_def WriteCollection_fromRead_def)

text \<open>
  C2. The claim asks that a read reference is converted to a write reference. On the read
  reference to \<^verbatim>\<open>users/u1\<close> the converter throws the ReferenceError of the undeclared
  name \<^verbatim>\<open>WriteRead\<close>, and so does a transaction whose read callback returns that
  reference. The method the branch was meant to call, \<^verbatim>\<open>WriteRef.fromRead\<close>, expects a
  document and throws a TypeError on a reference.
\<close>

theorem readDocsToWriteDocs_ReadRef_throws:
  "readDocsToWriteDocs 0 1 (JInst (RRef (ReadRef (ReadCollection 0 1 ''users'' ''users'') ''u1''))) =
     Inl (ReferenceError ''WriteRead is not defined'')
   \<and> transaction_body [[(''users'', Descriptor)]] 0 1
       (\<lambda>rdb. Inr (JInst (RRef (ReadRef (ReadCollection 0 1 ''users'' ''users'') ''u1''))))
       (\<lambda>wdb result staged. Inr (result, staged)) ([] :: unit tx_call list) =
     Inl (ReferenceError ''WriteRead is not defined'')
   \<and> WriteRef_fromRead (RRef (ReadRef (ReadCollection 0 1 ''users'' ''users'') ''u1'')) =
     Inl (TypeError ''Cannot read properties of undefined (reading 'collection')'')"
  by (simp add: transaction_body_def transactionReadHelpers_def transactionWriteHelpers_def
      readDB_def writeDB_def spread_copy_def split: prod.splits)

text \<open>
  C5. The claim asks that every nested value of primitives, read documents and read
  references keeps its shape. An array and a keyed mapping that hold a read reference next
  to a primitive are not converted: the converter throws. (It throws exactly on the values
  that hold a read reference, by \<open>readDocsToWriteDocs_Inl_iff\<close>; on the others it returns
  an array for an array and a keyed mapping for a keyed mapping, element by element, by
  \<open>readDocsToWriteDocs_JArray_shape\<close> and \<open>readDocsToWriteDocs_JObject_shape\<close>.)
\<close>

theorem readDocsToWriteDocs_nested_ReadRef_throws:
  "readDocsToWriteDocs 0 1
     (JArray [JNum 1, JInst (RRef (ReadRef (ReadCollection 0 1 ''users'' ''users'') ''u1''))]) =
     Inl (ReferenceError ''WriteRead is not defined'')
   \<and> readDocsToWriteDocs 0 1
     (JObject [(''n'', JNum 1),
               (''owner'', JInst (RRef (ReadRef (ReadCollection 0 1 ''users'' ''users'') ''u1'')))]) =
     Inl (ReferenceError ''WriteRead is not defined'')"
  by simp

section \<open>Claims about the output converter\<close>

lemma writeDocsToDocs_Inl_iff:
  "(\<exists>e. writeDocsToDocs db v = Inl e) \<longleftrightarrow> (\<exists>r. WRef r \<in> set_val v)"
proof -
  have leaf: "(\<exists>e. write_leaf db l = Inl e) \<longleftrightarrow> (\<exists>r. l = WRef r)" for l
    by (cases l) (simp_all add: write_leaf_def)
  have "(\<exists>e. writeDocsToDocs db v = Inl e) \<longleftrightarrow> (\<exists>l\<in>set_val v. \<exists>e. write_leaf db l = Inl e)"
    by (simp only: writeDocsToDocs_traverse traverse_Inl_iff)
  also have "\<dots> \<longleftrightarrow> (\<exists>l\<in>set_val v. \<exists>r. l = WRef r)"
    by (simp only: leaf)
  also have "\<dots> \<longleftrightarrow> (\<exists>r. WRef r \<in> set_val v)"
    by (rule bex_eq_leaf)
  finally show ?thesis .
qed

text \<open>
  C8. The claim asks that every write reference in the result of the write callback
  becomes a plain reference under the original db. On the write reference to
  \<^verbatim>\<open>users/u1\<close> the output converter throws a TypeError, and so does a transaction whose
  write callback returns that reference; a write document is converted as the claim says.
\<close>

theorem writeDocsToDocs_WriteRef_throws:
  "writeDocsToDocs 0 (JInst (WRef (WriteRef (WriteCollection 0 1 ''users'' ''users'') ''u1''))) =
     Inl (TypeError ''Cannot read properties of undefined (reading 'collection')'')
   \<and> transaction_body [[(''users'', Descriptor)]] 0 1
       (\<lambda>rdb. Inr JUndefined)
       (\<lambda>wdb result staged.
          Inr (JInst (WRef (WriteRef (WriteCollection 0 1 ''users'' ''users'') ''u1'')), staged))
       ([] :: unit tx_call list) =
     Inl (TypeError ''Cannot read properties of undefined (reading 'collection')'')
   \<and> writeDocsToDocs 0
       (JInst (WDoc (WriteDoc (WriteRef (WriteCollection 0 1 ''users'' ''users'') ''u1'') (JNum 1)))) =
     Inr (JInst (PDoc (Doc (Collection 0 ''users'' ''users'') ''u1'' (JNum 1))))"
  by (simp add: transaction_body_def transactionReadHelpers_def transactionWriteHelpers_def
      readDB_def writeDB_def spread_copy_def split: prod.splits)

section \<open>Claims about path resolution\<close>

lemma split_slash_not_Nil: "split_slash p \<noteq> []"
  by (induction p) (auto split: list.splits)

lemma slash_join_Cons_char: "slash_join ((c # s) # ss) = c # slash_join (s # ss)"
  by (cases ss) simp_all

lemma slash_join_Nil_Cons: "ss \<noteq> [] \<Longrightarrow> slash_join ([] # ss) = CHR ''/'' # slash_join ss"
  by (cases ss) simp_all

lemma slash_join_split_slash: "slash_join (split_slash p) = p"
proof (induction p)
  case Nil
  show ?case by simp
next
  case (Cons c cs)
  show ?case
  proof (cases "c = CHR ''/''")
    case True
    with Cons show ?thesis
      by (simp add: slash_join_Nil_Cons split_slash_not_Nil)
  next
    case False
    obtain s ss where "split_slash cs = s # ss"
      using split_slash_not_Nil [of cs] by (cases "split_slash cs") auto
    with False Cons show ?thesis
      by (simp add: slash_join_Cons_char)
  qed
qed

lemma slash_join_snoc: "xs \<noteq> [] \<Longrightarrow> slash_join (xs @ [y]) = slash_join xs @ ''/'' @ y"
  by (induction xs rule: slash_join.induct) simp_all

lemma slash_join_butlast:
  assumes "2 \<le> length segs"
  shows "slash_join segs = slash_join (butlast segs) @ ''/'' @ last segs"
proof -
  from assms have ne: "segs \<noteq> []" "butlast segs \<noteq> []"
    by (auto simp: butlast_conv_take)
  then have "segs = butlast segs @ [last segs]" by simp
  then have "slash_join segs = slash_join (butlast segs @ [last segs])" by simp
  also have "\<dots> = slash_join (butlast segs) @ ''/'' @ last segs"
    using ne(2) by (rule slash_join_snoc)
  finally show ?thesis .
qed

lemma pathToWriteRef_parsePath:
  "pathToWriteRef db t p =
     (case parsePath p of
        None \<Rightarrow> Inl (Error (''Can't parse path '' @ p))
      | Some (nested, name, ident) \<Rightarrow>
          Inr (WriteRef (WriteCollection db t name
                 (slash_join (case nested of None \<Rightarrow> [name] | Some n \<Rightarrow> [n, name]))) ident))"
  by (auto simp: pathToWriteRef_def pathRegExp_match_def or_empty_def split: option.splits)

lemma parsePath_Some_path:
  assumes "parsePath p = Some (nested, name, ident)"
  shows "slash_join (case nested of None \<Rightarrow> [name] | Some n \<Rightarrow> [n, name]) @ ''/'' @ ident = p"
proof -
  define segs where "segs = split_slash p"
  from assms have len: "2 \<le> length segs"
    and nested: "nested = (if length segs = 2 then None else Some (slash_join (butlast (butlast segs))))"
    and name: "name = last (butlast segs)" and ident: "ident = last segs"
    by (auto simp: parsePath_def Let_def segs_def split: if_splits)
  have "slash_join (case nested of None \<Rightarrow> [name] | Some n \<Rightarrow> [n, name]) = slash_join (butlast segs)"
  proof (cases "length segs = 2")
    case True
    then obtain a b where "segs = [a, b]"
      by (cases segs; cases "tl segs") auto
    with True nested name show ?thesis by simp
  next
    case False
    with len have "2 \<le> length (butlast segs)" by simp
    from slash_join_butlast [OF this] False nested name show ?thesis by simp
  qed
  with slash_join_butlast [OF len] ident have
    "slash_join (case nested of None \<Rightarrow> [name] | Some n \<Rightarrow> [n, name]) @ ''/'' @ ident = slash_join segs"
    by simp
  then show ?thesis by (simp add: segs_def slash_join_split_slash)
qed

text \<open>
  C4. For every path, \<^verbatim>\<open>pathToWriteRef\<close> throws the error \<^verbatim>\<open>Can't parse path\<close> followed by
  the path when the path does not match the grammar (fewer than two segments, or an empty
  segment), and otherwise returns the write reference whose collection has the given db
  and transaction, the collection name as its name and the nested prefix and the name
  joined by a slash as its path, and whose id is the document id; the collection path, a
  slash and the id give the path back. For \<^verbatim>\<open>a/b/c/d\<close> the nested prefix is \<^verbatim>\<open>a/b\<close>, the
  collection \<^verbatim>\<open>c\<close>, the collection path \<^verbatim>\<open>a/b/c\<close> and the id \<^verbatim>\<open>d\<close>; \<^verbatim>\<open>abc\<close> has one
  segment and is refused.
\<close>

theorem pathToWriteRef_spec:
  "pathToWriteRef db t p =
     (case parsePath p of
        None \<Rightarrow> Inl (Error (''Can't parse path '' @ p))
      | Some (nested, name, ident) \<Rightarrow>
          Inr (WriteRef (WriteCollection db t name
                 (slash_join (case nested of None \<Rightarrow> [name] | Some n \<Rightarrow> [n, name]))) ident))
   \<and> (parsePath p = None \<longleftrightarrow> length (split_slash p) < 2 \<or> [] \<in> set (split_slash p))
   \<and> (case pathToWriteRef db t p of
         Inl e \<Rightarrow> e = Error (''Can't parse path '' @ p)
       | Inr r \<Rightarrow> wc_path (wr_collection r) @ ''/'' @ wr_id r = p
                 \<and> wc_db (wr_collection r) = db \<and> wc_transaction (wr_collection r) = t)
   \<and> parsePath ''a/b/c/d'' = Some (Some ''a/b'', ''c'', ''d'')
   \<and> pathRegExp_match ''a/b/c/d'' = Some (Some ''a/b/'', ''c'', ''d'')
   \<and> pathToWriteRef db t ''a/b/c/d'' = Inr (WriteRef (WriteCollection db t ''c'' ''a/b/c'') ''d'')
   \<and> pathToWriteRef db t ''users/u1'' = Inr (WriteRef (WriteCollection db t ''users'' ''users'') ''u1'')
   \<and> pathToWriteRef db t ''abc'' = Inl (Error ''Can't parse path abc'')"
proof -
  have 1: "case pathToWriteRef db t p of
         Inl e \<Rightarrow> e = Error (''Can't parse path '' @ p)
       | Inr r \<Rightarrow> wc_path (wr_collection r) @ ''/'' @ wr_id r = p
                 \<and> wc_db (wr_collection r) = db \<and> wc_transaction (wr_collection r) = t"
  proof (cases "parsePath p")
    case None
    then show ?thesis by (simp add: pathToWriteRef_parsePath)
  next
    case (Some c)
    then obtain nested name ident where c: "parsePath p = Some (nested, name, ident)"
      by (cases c) auto
    from parsePath_Some_path [OF c] c show ?thesis
      by (simp add: pathToWriteRef_parsePath)
  qed
  have 2: "parsePath p = None \<longleftrightarrow> length (split_slash p) < 2 \<or> [] \<in> set (split_slash p)"
    by (simp add: parsePath_def Let_def)
  have 3: "parsePath ''a/b/c/d'' = Some (Some ''a/b'', ''c'', ''d'')"
    by (simp add: parsePath_def Let_def)
  have 4: "parsePath ''abc'' = None" "parsePath ''users/u1'' = Some (None, ''users'', ''u1'')"
    by (simp_all add: parsePath_def Let_def)
  from 1 2 3 4 show ?thesis
    by (simp add: pathToWriteRef_parsePath pathRegExp_match_def)
qed

section \<open>Claims about reading a document\<close>

lemma rel_val_set2:
  assumes "rel_val R v w" and "r \<in> set_val w"
  shows "\<exists>a\<in>set_val v. R a r"
proof -
  from assms(1) obtain z where z0: "z \<in> {x. set_val x \<subseteq> {(x, y). R x y}}"
    and z: "map_val fst z = v" "map_val snd z = w"
    unfolding val.in_rel by (elim exE conjE)
  from z0 have zs: "set_val z \<subseteq> {(x, y). R x y}"
    by simp
  from assms(2) z(2) have "r \<in> snd ` set_val z"
    by (simp only: val.set_map [symmetric])
  then obtain pr where pr: "pr \<in> set_val z" "r = snd pr"
    by (elim imageE)
  from zs pr(1) have "pr \<in> {(x, y). R x y}"
    by (rule subsetD)
  then have "R (fst pr) (snd pr)"
    by (simp add: case_prod_beta)
  moreover from pr(1) have "fst pr \<in> fst ` set_val z"
    by (rule imageI)
  then have "fst pr \<in> set_val v"
    using z(1) by (simp only: val.set_map [symmetric])
  ultimately show ?thesis
    using pr(2) by (intro bexI [of _ "fst pr"]) simp_all
qed

lemma pathToWriteRef_bound:
  "pathToWriteRef db t p = Inr w \<Longrightarrow> wc_db (wr_collection w) = db \<and> wc_transaction (wr_collection w) = t"
  by (auto simp: pathToWriteRef_def split: option.splits prod.splits)

lemma ReadCollection_get_traverse:
  assumes "S = tx_get (rc_transaction c) (rc_path c @ ''/'' @ ident)"
  shows "ReadCollection_get tx_get c ident =
     (if \<not> snap_exists S then Inr None
      else (case traverse (\<lambda>es. es) (\<lambda>path. map_sum id WriteRefObj (pathToWriteRef (rc_db c) (rc_transaction c) path))
                   (snap_data S) of
              Inl e \<Rightarrow> Inl e
            | Inr data \<Rightarrow> Inr (Some (ReadDoc (ReadRef c ident) data))))"
  unfolding assms
  by (simp add: ReadCollection_get_def wrapData_traverse new_ReadDoc_def Let_def split: sum.splits)

text \<open>
  C3, as the claim states it, fails: the claim says that an embedded reference marker
  becomes a read reference. The document \<^verbatim>\<open>posts/p1\<close> whose data is a marker for
  \<^verbatim>\<open>users/u1\<close> is read as a document whose payload is a write reference.
\<close>

theorem ReadCollection_get_payload_write_ref:
  "ReadCollection_get
     (\<lambda>t p. if p = ''posts/p1'' then Snapshot True (JInst ''users/u1'') else Snapshot False JUndefined)
     (ReadCollection 0 1 ''posts'' ''posts'') ''p1'' =
   Inr (Some (ReadDoc (ReadRef (ReadCollection 0 1 ''posts'' ''posts'') ''p1'')
     (JInst (WriteRefObj (WriteRef (WriteCollection 0 1 ''users'' ''users'') ''u1'')))))
   \<and> \<not> is_ReadRefObj (WriteRefObj (WriteRef (WriteCollection 0 1 ''users'' ''users'') ''u1''))"
  by (simp add: ReadCollection_get_def pathToWriteRef_def pathRegExp_match_def parsePath_def
      or_empty_def new_ReadDoc_def Let_def)

text \<open>
  C3, amended. \<^verbatim>\<open>get(id)\<close> returns \<^verbatim>\<open>null\<close> exactly when the snapshot of the document at
  the collection path, a slash and the id does not exist. When it exists and the path of
  every embedded marker matches the path grammar, \<^verbatim>\<open>get\<close> returns the read document of
  this collection and id whose payload has the shape of the snapshot data with every marker
  replaced by the write reference \<^verbatim>\<open>pathToWriteRef\<close> resolves its path to, each bound to
  the db and the transaction of the collection. When it exists and the path of some marker
  does not match, \<^verbatim>\<open>get\<close> throws the parse error of such a path.
\<close>

theorem ReadCollection_get_spec:
  assumes S: "S = tx_get (rc_transaction c) (rc_path c @ ''/'' @ ident)"
  shows "(ReadCollection_get tx_get c ident = Inr None \<longleftrightarrow> \<not> snap_exists S)
   \<and> (snap_exists S \<longrightarrow> (\<forall>p\<in>set_val (snap_data S). parsePath p \<noteq> None) \<longrightarrow>
        (\<exists>data. ReadCollection_get tx_get c ident = Inr (Some (ReadDoc (ReadRef c ident) data))
           \<and> rel_val (\<lambda>p r. \<exists>w. pathToWriteRef (rc_db c) (rc_transaction c) p = Inr w \<and> r = WriteRefObj w)
                (snap_data S) data
           \<and> (\<forall>r\<in>set_val data. \<exists>w. r = WriteRefObj w
                 \<and> wc_transaction (wr_collection w) = rc_transaction c
                 \<and> wc_db (wr_collection w) = rc_db c)))
   \<and> (snap_exists S \<longrightarrow> (\<exists>p\<in>set_val (snap_data S). parsePath p = None) \<longrightarrow>
        (\<exists>p\<in>set_val (snap_data S). parsePath p = None
           \<and> ReadCollection_get tx_get c ident = Inl (Error (''Can't parse path '' @ p))))"
proof -
  let ?f = "\<lambda>path. map_sum id WriteRefObj (pathToWriteRef (rc_db c) (rc_transaction c) path)"
  note get = ReadCollection_get_traverse [where S = S and tx_get = tx_get and c = c and ident = ident, OF S]
  let ?R = "\<lambda>p r. \<exists>w. pathToWriteRef (rc_db c) (rc_transaction c) p = Inr w \<and> r = WriteRefObj w"
  have R: "(\<lambda>a b. ?f a = Inr b) = ?R"
    by (auto simp: fun_eq_iff map_sum_Inr_iff)
  have fInl: "?f p = Inl e \<longleftrightarrow> parsePath p = None \<and> e = Error (''Can't parse path '' @ p)" for p e
    by (auto simp: map_sum_Inl_iff pathToWriteRef_def pathRegExp_match_def
        split: option.splits prod.splits)
  have 1: "ReadCollection_get tx_get c ident = Inr None \<longleftrightarrow> \<not> snap_exists S"
    by (cases "traverse (\<lambda>es. es) ?f (snap_data S)") (simp_all add: get)
  have 2: "\<exists>data. ReadCollection_get tx_get c ident = Inr (Some (ReadDoc (ReadRef c ident) data))
           \<and> rel_val ?R (snap_data S) data
           \<and> (\<forall>r\<in>set_val data. \<exists>w. r = WriteRefObj w
                 \<and> wc_transaction (wr_collection w) = rc_transaction c
                 \<and> wc_db (wr_collection w) = rc_db c)"
    if ex: "snap_exists S" and ok: "\<forall>p\<in>set_val (snap_data S). parsePath p \<noteq> None"
  proof (cases "traverse (\<lambda>es. es) ?f (snap_data S)")
    case (Inl e)
    from traverse_Inl [OF Inl] obtain p where p: "p \<in> set_val (snap_data S)" "?f p = Inl e" ..
    from p(2) have "parsePath p = None"
      by (simp only: fInl)
    moreover from ok p(1) have "parsePath p \<noteq> None"
      by (rule bspec)
    ultimately have False by simp
    then show ?thesis ..
  next
    case (Inr data)
    then have rel: "rel_val ?R (snap_data S) data"
      by (simp only: traverse_Inr_iff R)
    have "\<exists>w. r = WriteRefObj w \<and> wc_transaction (wr_collection w) = rc_transaction c
                 \<and> wc_db (wr_collection w) = rc_db c" if "r \<in> set_val data" for r
    proof -
      from rel_val_set2 [OF rel that] obtain p w where
        "pathToWriteRef (rc_db c) (rc_transaction c) p = Inr w" "r = WriteRefObj w"
        by (elim bexE exE conjE)
      with pathToWriteRef_bound [of "rc_db c" "rc_transaction c" p w] show ?thesis
        by simp
    qed
    then have "\<forall>r\<in>set_val data. \<exists>w. r = WriteRefObj w
                 \<and> wc_transaction (wr_collection w) = rc_transaction c
                 \<and> wc_db (wr_collection w) = rc_db c" ..
    moreover have "ReadCollection_get tx_get c ident = Inr (Some (ReadDoc (ReadRef c ident) data))"
      using ex Inr by (simp add: get)
    ultimately show ?thesis using rel by (intro exI [of _ data] conjI)
  qed
  have 3: "\<exists>p\<in>set_val (snap_data S). parsePath p = None
           \<and> ReadCollection_get tx_get c ident = Inl (Error (''Can't parse path '' @ p))"
    if ex: "snap_exists S" and bad: "\<exists>p\<in>set_val (snap_data S). parsePath p = None"
  proof -
    from bad obtain q where q: "q \<in> set_val (snap_data S)" "parsePath q = None"
      by (elim bexE)
    from q(2) have "?f q = Inl (Error (''Can't parse path '' @ q))"
      by (simp add: fInl)
    from traverse_leaf_Inl [where f = ?f, OF q(1) this]
    obtain e where e: "traverse (\<lambda>es. es) ?f (snap_data S) = Inl e" ..
    from traverse_Inl [OF e] obtain p where p: "p \<in> set_val (snap_data S)" "?f p = Inl e" ..
    from p(2) have "parsePath p = None" "e = Error (''Can't parse path '' @ p)"
      by (simp_all add: fInl)
    moreover from ex e have "ReadCollection_get tx_get c ident = Inl e"
      by (simp add: get)
    ultimately show ?thesis using p(1) by (intro bexI [of _ p]) simp_all
  qed
  from 1 2 3 show ?thesis by (intro conjI impI)
qed

text \<open>
  The amended C3 at a store with three documents: \<^verbatim>\<open>posts/p1\<close> with a title and a marker
  for \<^verbatim>\<open>users/u1\<close>, the missing \<^verbatim>\<open>posts/p2\<close>, and \<^verbatim>\<open>posts/p3\<close> with a marker whose path has
  one segment.
\<close>

theorem ReadCollection_get_spec_witness:
  "snap_exists (Snapshot True (JObject [(''title'', JStr ''x''), (''author'', JInst ''users/u1'')]))
   \<and> parsePath ''users/u1'' = Some (None, ''users'', ''u1'')
   \<and> parsePath ''users'' = None
   \<and> ReadCollection_get
        (\<lambda>t p. if p = ''posts/p1''
               then Snapshot True (JObject [(''title'', JStr ''x''), (''author'', JInst ''users/u1'')])
               else if p = ''posts/p3'' then Snapshot True (JArray [JInst ''users'']) 
               else Snapshot False JUndefined)
        (ReadCollection 0 1 ''posts'' ''posts'') ''p1'' =
      Inr (Some (ReadDoc (ReadRef (ReadCollection 0 1 ''posts'' ''posts'') ''p1'')
        (JObject [(''title'', JStr ''x''),
                  (''author'', JInst (WriteRefObj (WriteRef (WriteCollection 0 1 ''users'' ''users'') ''u1'')))])))
   \<and> ReadCollection_get
        (\<lambda>t p. if p = ''posts/p1''
               then Snapshot True (JObject [(''title'', JStr ''x''), (''author'', JInst ''users/u1'')])
               else if p = ''posts/p3'' then Snapshot True (JArray [JInst ''users'']) 
               else Snapshot False JUndefined)
        (ReadCollection 0 1 ''posts'' ''posts'') ''p2'' = Inr None
   \<and> ReadCollection_get
        (\<lambda>t p. if p = ''posts/p1''
               then Snapshot True (JObject [(''title'', JStr ''x''), (''author'', JInst ''users/u1'')])
               else if p = ''posts/p3'' then Snapshot True (JArray [JInst ''users'']) 
               else Snapshot False JUndefined)
        (ReadCollection 0 1 ''posts'' ''posts'') ''p3'' = Inl (Error ''Can't parse path users'')"
  using ReadCollection_get_spec [OF refl,
      of "\<lambda>t p. if p = ''posts/p1''
               then Snapshot True (JObject [(''title'', JStr ''x''), (''author'', JInst ''users/u1'')])
               else if p = ''posts/p3'' then Snapshot True (JArray [JInst ''users'']) 
               else Snapshot False JUndefined"
         "ReadCollection 0 1 ''posts'' ''posts''" "''p1''"]
  by (simp add: ReadCollection_get_def pathToWriteRef_def pathRegExp_match_def parsePath_def
      or_empty_def new_ReadDoc_def Let_def)

section \<open>Claims about staging writes\<close>

text \<open>
  C6. When the data of \<^verbatim>\<open>update(id, data)\<close>, given as a value or returned by the function
  given, is \<^verbatim>\<open>undefined\<close>, the empty object or the empty array, the sequence of calls made
  on the transaction is unchanged: no method of the transaction is invoked. The same holds
  for \<^verbatim>\<open>update\<close> of a write reference and of a write document, which delegate.
\<close>

theorem WriteCollection_update_vacuous:
  assumes "resolve_arg UpdateHelpers data \<in> {UUndefined, UObject [], UArray []}"
  shows "WriteCollection_update unwrapData this ident data staged = staged
     \<and> WriteRef_update unwrapData (WriteRef this ident) data staged = staged
     \<and> WriteDoc_update unwrapData (WriteDoc (WriteRef this ident) payload) data staged = staged"
  using assms
  by (auto simp: WriteDoc_update_def WriteRef_update_def WriteCollection_update_def Let_def
      updateFields_def Object_keys_def)

text \<open>
  C6 at the three vacuous updates, after a staged deletion; an update with one field
  stages one call.
\<close>

theorem WriteCollection_update_vacuous_witness:
  "resolve_arg UpdateHelpers (Plain UUndefined) \<in> {UUndefined, UObject [], UArray []}
   \<and> resolve_arg UpdateHelpers (Plain (UObject [])) \<in> {UUndefined, UObject [], UArray []}
   \<and> resolve_arg UpdateHelpers (Fn (\<lambda>helpers. UArray [])) \<in> {UUndefined, UObject [], UArray []}
   \<and> WriteCollection_update (\<lambda>d. d) (WriteCollection 0 1 ''users'' ''users'') ''u1''
        (Plain UUndefined) [TxDelete ''users'' ''u0''] = [TxDelete ''users'' ''u0'']
   \<and> WriteCollection_update (\<lambda>d. d) (WriteCollection 0 1 ''users'' ''users'') ''u1''
        (Plain (UObject [])) [TxDelete ''users'' ''u0''] = [TxDelete ''users'' ''u0'']
   \<and> WriteCollection_update (\<lambda>d. d) (WriteCollection 0 1 ''users'' ''users'') ''u1''
        (Fn (\<lambda>helpers. UArray [])) [TxDelete ''users'' ''u0''] = [TxDelete ''users'' ''u0'']
   \<and> WriteCollection_update (\<lambda>d. d) (WriteCollection 0 1 ''users'' ''users'') ''u1''
        (Plain (UObject [(''n'', JNum 1)])) [TxDelete ''users'' ''u0''] =
      [TxDelete ''users'' ''u0'', TxUpdate ''users'' ''u1'' (JObject [(''n'', JNum 1)])]"
  using WriteCollection_update_vacuous [of "Plain UUndefined" "\<lambda>d. d"
          "WriteCollection 0 1 ''users'' ''users''" "''u1''" "[TxDelete ''users'' ''u0'']"]
        WriteCollection_update_vacuous [of "Plain (UObject [])" "\<lambda>d. d"
          "WriteCollection 0 1 ''users'' ''users''" "''u1''" "[TxDelete ''users'' ''u0'']"]
        WriteCollection_update_vacuous [of "Fn (\<lambda>helpers. UArray [])" "\<lambda>d. d"
          "WriteCollection 0 1 ''users'' ''users''" "''u1''" "[TxDelete ''users'' ''u0'']"]
  by (simp add: resolve_arg_def WriteCollection_update_def Object_keys_def)

section \<open>Claims about the proxy trees\<close>















lemma readDB_snd:
  "snd (readDB h rootDB t) =
     readDB_convertDB rootDB t
       (filter (\<lambda>kv. fst kv \<noteq> ''groups'') (filter (\<lambda>kv. fst kv \<noteq> ''id'') (h ! rootDB))) None"
  by (simp add: readDB_def spread_copy_def delete_prop_def Let_def nth_append)




lemma readDB_fst:
  "fst (readDB h rootDB t) =
     h @ [filter (\<lambda>kv. fst kv \<noteq> ''groups'') (filter (\<lambda>kv. fst kv \<noteq> ''id'') (h ! rootDB))]"
  by (simp add: readDB_def spread_copy_def delete_prop_def Let_def)

lemma writeDB_fst:
  "fst (writeDB h rootDB t) =
     h @ [filter (\<lambda>kv. fst kv \<noteq> ''groups'') (filter (\<lambda>kv. fst kv \<noteq> ''id'') (h ! rootDB))]"
  by (simp add: writeDB_def spread_copy_def delete_prop_def Let_def)













text \<open>
  C10. After \<^verbatim>\<open>readDB\<close> and after \<^verbatim>\<open>writeDB\<close> the db object passed in has the entries it
  had before, and so has every other object that existed before the call: the heap after
  the call is the heap before it extended by the filtered copy.
\<close>

theorem readDB_writeDB_keep_db:
  assumes "rootDB < length h"
  shows "fst (readDB h rootDB t) ! rootDB = h ! rootDB
     \<and> fst (writeDB h rootDB t) ! rootDB = h ! rootDB
     \<and> take (length h) (fst (readDB h rootDB t)) = h
     \<and> take (length h) (fst (writeDB h rootDB t)) = h"
  using assms by (simp add: readDB_fst writeDB_fst nth_append)

text \<open>
  C10 at a db object with the keys \<^verbatim>\<open>id\<close>, \<^verbatim>\<open>groups\<close> and \<^verbatim>\<open>users\<close>: after the call the
  object still has the three keys while the tree has the key \<^verbatim>\<open>users\<close> only; deleting
  \<^verbatim>\<open>id\<close> from the object itself would have removed the key.
\<close>

theorem readDB_writeDB_keep_db_witness:
  "(0::nat) < length [[(''id'', Descriptor), (''groups'', Descriptor), (''users'', Descriptor)]]
   \<and> map fst (fst (readDB [[(''id'', Descriptor), (''groups'', Descriptor), (''users'', Descriptor)]] 0 1) ! 0) =
       [''id'', ''groups'', ''users'']
   \<and> map fst (fst (writeDB [[(''id'', Descriptor), (''groups'', Descriptor), (''users'', Descriptor)]] 0 1) ! 0) =
       [''id'', ''groups'', ''users'']
   \<and> map fst (snd (readDB [[(''id'', Descriptor), (''groups'', Descriptor), (''users'', Descriptor)]] 0 1)) =
       [''users'']
   \<and> map fst (delete_prop [[(''id'', Descriptor), (''groups'', Descriptor), (''users'', Descriptor)]] 0 ''id'' ! 0) =
       [''groups'', ''users'']"
  using readDB_writeDB_keep_db [of 0 "[[(''id'', Descriptor), (''groups'', Descriptor), (''users'', Descriptor)]]" 1]
  by (simp add: readDB_snd readDB_convertDB_def assigned_def delete_prop_def)

end
